theory Spec2Isabelle
  imports Complex_Main "HOL-Library.AList" "HOL-Library.Sublist"
begin

section \<open>Kraken adapter: order books, subscriptions, heartbeat and nonces\<close>

text \<open>
  A shallow embedding of \<^verbatim>\<open>kraken.ws-public.ts\<close>, \<^verbatim>\<open>kraken.ws-private.ts\<close>,
  \<^verbatim>\<open>kraken.api.ts\<close> and \<^verbatim>\<open>kraken.types.ts\<close>.

  Modelling conventions.
  \<^item> JavaScript numbers that carry prices and quantities are decimals, modelled as
    \<^typ>\<open>rat\<close>; clock readings are integers (milliseconds).
  \<^item> A JavaScript object used as a dictionary is an association list in insertion
    order: assignment is \<^const>\<open>AList.update\<close> (an existing key keeps its place, a new
    key goes last), \<^verbatim>\<open>delete\<close> is \<^const>\<open>AList.delete\<close>, lookup is \<^const>\<open>map_of\<close>.
  \<^item> Mutation is explicit state passing on a record of the session's fields. A
    function that can raise returns the raised error beside the state it leaves
    behind, because a JavaScript exception does not undo earlier assignments.
  \<^item> A caller's callback is an opaque identifier; invoking it appends to the log
    \<open>calls\<close>. A closure returned to the caller is a value of a datatype that
    records which closure it is and what it captured.
  \<^item> Timers are entries of a pending list; the passing of time is the firing of
    a pending entry.
  \<^item> \<^verbatim>\<open>orderBookCallbacks\<close> and \<^verbatim>\<open>orderBooks\<close> are plain objects, so a lookup that
    finds no own key still finds the members every object inherits. The handler never
    creates an own book under such a name (its lookup never comes back empty); an
    entry of \<open>orderBooks\<close> under such a name stands for the \<^verbatim>\<open>bids\<close> and \<^verbatim>\<open>asks\<close> the
    handler has assigned onto the inherited member itself.
\<close>

subsection \<open>Order books\<close>

text \<open>One price level of a side: \<^verbatim>\<open>{price, amount, total}\<close>.\<close>

record entry =
  price :: rat
  amount :: rat
  total :: rat

record orderBook =
  bids :: "entry list"
  asks :: "entry list"

text \<open>One level of a snapshot message: \<^verbatim>\<open>{price, qty}\<close>.\<close>

datatype level = Level (level_price: rat) (level_qty: rat)

text \<open>
  A decoded message, \<^verbatim>\<open>Record<string, any>\<close> in the source. The model gives every
  field the type the handlers' own annotations declare. Fields that the handlers read
  without testing them (\<^verbatim>\<open>product_id\<close>, \<^verbatim>\<open>side\<close>, \<^verbatim>\<open>price\<close>, \<^verbatim>\<open>qty\<close>) are present;
  \<^verbatim>\<open>feed\<close> and the two arrays of a snapshot may be absent (\<open>None\<close> is \<^verbatim>\<open>undefined\<close>);
  \<open>data_ticker\<close> lists the numeric ticker fields that are not \<^verbatim>\<open>undefined\<close>.
  The selectors carry the prefix \<open>data_\<close> because \<open>bids\<close>, \<open>asks\<close> and \<open>price\<close>
  are already fields of the book.
\<close>

record data =
  data_feed :: "string option"
  data_product_id :: string
  data_bids :: "level list option"
  data_asks :: "level list option"
  data_side :: string
  data_price :: rat
  data_qty :: rat
  data_ticker :: "(string \<times> rat) list"

datatype js_error = TypeError

text \<open>
  How a handler ends: it returns, it raises, or it does what the session record cannot
  follow. The last is for a step that leaves half a book on an object shared by every
  object of the program, or reads \<^verbatim>\<open>bids\<close> and \<^verbatim>\<open>asks\<close> through one, or whose end
  depends on code that is not among the sources; the state beside it describes nothing.
\<close>

datatype completion = Returned | Raised js_error | NotFollowed

text \<open>
  Modelled from the spec: \<^verbatim>\<open>sortOrderBook\<close> of \<^verbatim>\<open>utils/orderbook\<close>, which is not among
  the sources. Section 4.5: re-sort, bids descending by price, asks ascending by
  price. The sort is stable, as \<^verbatim>\<open>Array.prototype.sort\<close> is.
\<close>

definition sortOrderBook :: "orderBook \<Rightarrow> orderBook" where
  "sortOrderBook ob =
     ob\<lparr>asks := sort_key price (asks ob),
        bids := sort_key (\<lambda>e. - price e) (bids ob)\<rparr>"

text \<open>
  Modelled from the spec: \<^verbatim>\<open>calcOrderBookTotal\<close> of \<^verbatim>\<open>utils/orderbook\<close>, which is not
  among the sources. Section 3: the cumulative total is a running sum of the amounts
  from the best price outward, recomputed for the whole side.
\<close>

fun running_total :: "rat \<Rightarrow> entry list \<Rightarrow> entry list" where
  "running_total acc [] = []"
| "running_total acc (e # es) =
     e\<lparr>total := acc + amount e\<rparr> # running_total (acc + amount e) es"

definition calcOrderBookTotal :: "orderBook \<Rightarrow> orderBook" where
  "calcOrderBookTotal ob =
     ob\<lparr>bids := running_total 0 (bids ob), asks := running_total 0 (asks ob)\<rparr>"

subsection \<open>The public session\<close>

datatype topic = Topic (topic_feed: string) (topic_product_id: string)

text \<open>A wire command, the object handed to \<^verbatim>\<open>JSON.stringify\<close> before \<^verbatim>\<open>send\<close>.\<close>

datatype payload = Payload (event: string) (payload_feed: string) (product_ids: "string list")

text \<open>A market of the store; \<open>market_id\<close> is its field \<^verbatim>\<open>id\<close>.\<close>

datatype market = Market (market_id: string) (symbol: string)

datatype readyState = CONNECTING | OPEN | CLOSING | CLOSED

type_synonym callback = nat

text \<open>
  The fields of \<^verbatim>\<open>KrakenPublicWebsocket\<close>, with the parts of its surroundings that its
  methods read or write: the socket (\<open>ws\<close> is its ready state, \<open>sent\<close> what went over
  any socket of this session, \<open>sockets\<close> how many were constructed), the store
  (\<open>markets\<close>, \<open>loaded_markets\<close>, \<open>tickers\<close>), the pending retry timers, and the log
  of callback invocations.
\<close>

record ws_public =
  isDisposed :: bool
  ws :: "readyState option"
  sockets :: nat
  sent :: "payload list"
  topics :: "(string \<times> topic list) list"
  orderBookCallbacks :: "(string \<times> callback) list"
  orderBooks :: "(string \<times> orderBook) list"
  markets :: "market list"
  loaded_markets :: bool
  tickers :: "(string \<times> (string \<times> rat) list) list"
  timers :: "(nat \<times> string \<times> callback) list"
  nextTimer :: nat
  calls :: "(callback \<times> orderBook) list"

text \<open>\<^verbatim>\<open>findIndex\<close>: the first index whose element satisfies the test, \<open>None\<close> for -1.\<close>

fun findIndex :: "('a \<Rightarrow> bool) \<Rightarrow> 'a list \<Rightarrow> nat option" where
  "findIndex P [] = None"
| "findIndex P (x # xs) =
     (if P x then Some 0 else map_option Suc (findIndex P xs))"

text \<open>\<^verbatim>\<open>splice(index, 1)\<close>: drop the element at the index.\<close>

definition splice1 :: "nat \<Rightarrow> 'a list \<Rightarrow> 'a list" where
  "splice1 i xs = take i xs @ drop (Suc i) xs"

definition snapshot_entry :: "level \<Rightarrow> entry" where
  "snapshot_entry l = \<lparr>price = level_price l, amount = level_qty l, total = 0\<rparr>"

text \<open>The branch of a \<^verbatim>\<open>book\<close> message, on the side it names.\<close>

definition apply_delta :: "rat \<Rightarrow> rat \<Rightarrow> entry list \<Rightarrow> entry list" where
  "apply_delta p q side =
     (case findIndex (\<lambda>order. price order = p) side of
        Some index \<Rightarrow>
          if q = 0 then splice1 index side
          else side[index := (side ! index)\<lparr>amount := q\<rparr>]
      | None \<Rightarrow> side @ [\<lparr>price = p, amount = q, total = 0\<rparr>])"

text \<open>
  The members every plain object inherits from \<^verbatim>\<open>Object.prototype\<close>. All are functions
  except \<^verbatim>\<open>__proto__\<close>, which reads as \<^verbatim>\<open>Object.prototype\<close> itself.
\<close>

definition objectPrototypeMembers :: "string list" where
  "objectPrototypeMembers =
     [''constructor'', ''hasOwnProperty'', ''isPrototypeOf'', ''propertyIsEnumerable'',
      ''toLocaleString'', ''toString'', ''valueOf'', ''__defineGetter__'',
      ''__defineSetter__'', ''__lookupGetter__'', ''__lookupSetter__'', ''__proto__'']"

text \<open>
  \<^verbatim>\<open>Object.prototype\<close> carries \<^verbatim>\<open>bids\<close> and \<^verbatim>\<open>asks\<close> of its own: the handler has run
  a snapshot for the product \<^verbatim>\<open>__proto__\<close>. From then on every object inherits these two
  arrays, the two dictionaries, the dispatch table and every decoded message included.
\<close>

definition prototype_book :: "ws_public \<Rightarrow> bool" where
  "prototype_book s \<longleftrightarrow> map_of (orderBooks s) ''__proto__'' \<noteq> None"

text \<open>A key that a lookup in a dictionary without that own key still finds.\<close>

definition inherits :: "ws_public \<Rightarrow> string \<Rightarrow> bool" where
  "inherits s k \<longleftrightarrow>
     k \<in> set objectPrototypeMembers \<or> (k \<in> set [''bids'', ''asks''] \<and> prototype_book s)"

text \<open>
  What \<^verbatim>\<open>this.orderBookCallbacks[productId]\<close> yields when it is truthy: a registered
  callback, an inherited member, or an inherited array (which cannot be called).
\<close>

datatype callback_value = Registered callback | Member string | NotCallable

definition callback_at :: "ws_public \<Rightarrow> string \<Rightarrow> callback_value option" where
  "callback_at s k =
     (case map_of (orderBookCallbacks s) k of
        Some cb \<Rightarrow> Some (Registered cb)
      | None \<Rightarrow>
          if k \<in> set objectPrototypeMembers then Some (Member k)
          else if inherits s k then Some NotCallable
          else None)"

text \<open>
  \<^verbatim>\<open>callback(orderBook)\<close>. A registered callback is logged. An inherited member is
  called as a plain function, without a receiver: \<^verbatim>\<open>toString\<close> and \<^verbatim>\<open>constructor\<close>
  return; \<^verbatim>\<open>__proto__\<close> is not a function and the two accessor definers want a function
  as second argument, so these raise; the others convert their receiver to an object,
  which raises in strict code only.
\<close>

definition invoke :: "callback_value \<Rightarrow> orderBook \<Rightarrow> ws_public \<Rightarrow> completion \<times> ws_public" where
  "invoke c ob s =
     (case c of
        Registered cb \<Rightarrow> (Returned, s\<lparr>calls := calls s @ [(cb, ob)]\<rparr>)
      | Member k \<Rightarrow>
          if k \<in> set [''toString'', ''constructor''] then (Returned, s)
          else if k \<in> set [''__proto__'', ''__defineGetter__'', ''__defineSetter__'']
            then (Raised TypeError, s)
          else (NotFollowed, s)
      | NotCallable \<Rightarrow> (Raised TypeError, s))"

text \<open>
  The last three statements of the handler: sort, totals, callback. The book object
  is the one held in \<open>orderBooks\<close>, so the store sees every assignment.
\<close>

definition finish ::
  "string \<Rightarrow> callback_value \<Rightarrow> orderBook \<Rightarrow> ws_public \<Rightarrow> completion \<times> ws_public" where
  "finish productId c ob s =
     (let ob' = calcOrderBookTotal (sortOrderBook ob)
      in invoke c ob' (s\<lparr>orderBooks := AList.update productId ob' (orderBooks s)\<rparr>))"

text \<open>
  The handler from its line 120 on, for a book \<open>ob\<close> that \<open>orderBooks\<close> of \<open>s1\<close> holds
  under the product id: an own book, or the two arrays of an inherited member. A
  snapshot without \<^verbatim>\<open>bids\<close> or \<^verbatim>\<open>asks\<close> raises at \<^verbatim>\<open>.map\<close>, unless the message inherits
  the array it lacks from \<^verbatim>\<open>Object.prototype\<close>.
\<close>

definition on_book ::
  "data \<Rightarrow> string \<Rightarrow> callback_value \<Rightarrow> orderBook \<Rightarrow> ws_public \<Rightarrow> completion \<times> ws_public" where
  "on_book d productId c ob s1 =
     (if data_feed d = Some ''book_snapshot'' then
        (case data_bids d of
           None \<Rightarrow> if prototype_book s1 then (NotFollowed, s1) else (Raised TypeError, s1)
         | Some bs \<Rightarrow>
             let ob1 = ob\<lparr>bids := map snapshot_entry bs\<rparr>;
                 s2 = s1\<lparr>orderBooks := AList.update productId ob1 (orderBooks s1)\<rparr>
             in (case data_asks d of
                   None \<Rightarrow>
                     if prototype_book s1 then (NotFollowed, s1) else (Raised TypeError, s2)
                 | Some as \<Rightarrow> finish productId c (ob1\<lparr>asks := map snapshot_entry as\<rparr>) s2))
      else if data_feed d = Some ''book'' then
        (if data_side d = ''buy''
         then finish productId c
                (ob\<lparr>bids := apply_delta (data_price d) (data_qty d) (bids ob)\<rparr>) s1
         else finish productId c
                (ob\<lparr>asks := apply_delta (data_price d) (data_qty d) (asks ob)\<rparr>) s1)
      else finish productId c ob s1)"

text \<open>
  The same lines when the lookup in \<open>orderBooks\<close> found an inherited object that has
  no \<^verbatim>\<open>bids\<close> and \<^verbatim>\<open>asks\<close> of its own. A snapshot assigns both onto that object; its
  \<^verbatim>\<open>bids.map\<close> raises before anything is assigned when \<^verbatim>\<open>bids\<close> is missing, and when only
  \<^verbatim>\<open>asks\<close> is missing the object is left with half a book. A \<^verbatim>\<open>book\<close> message reads
  \<^verbatim>\<open>orderBook[orderSide]\<close>, which is \<^verbatim>\<open>undefined\<close> and raises at \<^verbatim>\<open>findIndex\<close>, unless
  \<^verbatim>\<open>Object.prototype\<close> carries the arrays. Any other feed goes straight to
  \<^verbatim>\<open>sortOrderBook\<close> with an object that has no sides.
\<close>

definition on_member ::
  "data \<Rightarrow> string \<Rightarrow> callback_value \<Rightarrow> ws_public \<Rightarrow> completion \<times> ws_public" where
  "on_member d productId c s =
     (if data_feed d = Some ''book_snapshot'' then
        (case data_bids d of
           None \<Rightarrow> if prototype_book s then (NotFollowed, s) else (Raised TypeError, s)
         | Some bs \<Rightarrow>
             (case data_asks d of
                None \<Rightarrow> (NotFollowed, s)
              | Some as \<Rightarrow>
                  finish productId c
                    \<lparr>bids = map snapshot_entry bs, asks = map snapshot_entry as\<rparr> s))
      else if data_feed d = Some ''book'' then
        (if prototype_book s then (NotFollowed, s) else (Raised TypeError, s))
      else (NotFollowed, s))"

text \<open>
  \<^verbatim>\<open>handleOrderBookEvent\<close>: the guard on the callback, the lookup of the book (created
  when the lookup finds nothing at all), then the lines above.
\<close>

definition handleOrderBookEvent :: "data \<Rightarrow> ws_public \<Rightarrow> completion \<times> ws_public" where
  "handleOrderBookEvent d s =
     (let productId = data_product_id d in
      case callback_at s productId of
        None \<Rightarrow> (Returned, s)
      | Some c \<Rightarrow>
          (case map_of (orderBooks s) productId of
             Some ob \<Rightarrow> on_book d productId c ob s
           | None \<Rightarrow>
               if inherits s productId then on_member d productId c s
               else on_book d productId c \<lparr>bids = [], asks = []\<rparr>
                      (s\<lparr>orderBooks :=
                           AList.update productId \<lparr>bids = [], asks = []\<rparr> (orderBooks s)\<rparr>)))"

text \<open>Every event of a list, in arrival order; an error of one does not stop the next.\<close>

fun handleOrderBookEvents :: "data list \<Rightarrow> ws_public \<Rightarrow> ws_public" where
  "handleOrderBookEvents [] s = s"
| "handleOrderBookEvents (d # ds) s =
     handleOrderBookEvents ds (snd (handleOrderBookEvent d s))"

text \<open>
  The ticker handler. \<open>ticker_names\<close> is the chain of \<^verbatim>\<open>if (data.x !== undefined)\<close>
  tests: the message's field and the ticker's field it is copied to, in the order of
  the source. \<^verbatim>\<open>store.updateTicker\<close> belongs to the store; here it overwrites the
  named fields of the ticker found.
\<close>

definition ticker_names :: "(string \<times> string) list" where
  "ticker_names =
     [(''bid'', ''bid''), (''ask'', ''ask''), (''last'', ''last''),
      (''markPrice'', ''mark''), (''index'', ''index''), (''change'', ''percentage''),
      (''openInterest'', ''openInterest''), (''funding_rate'', ''fundingRate''),
      (''volume'', ''volume''), (''volumeQuote'', ''quoteVolume'')]"

definition ticker_update :: "data \<Rightarrow> (string \<times> rat) list" where
  "ticker_update d =
     List.map_filter
       (\<lambda>(src, dst). map_option (\<lambda>v. (dst, v)) (map_of (data_ticker d) src))
       ticker_names"

definition handleTickersEvent :: "data \<Rightarrow> ws_public \<Rightarrow> completion \<times> ws_public" where
  "handleTickersEvent d s =
     (case find (\<lambda>m. market_id m = data_product_id d) (markets s) of
        None \<Rightarrow> (Returned, s)
      | Some m \<Rightarrow>
          if symbol m = [] then (Returned, s)
          else (case map_of (tickers s) (symbol m) of
                  None \<Rightarrow> (Returned, s)
                | Some ticker \<Rightarrow>
                    (Returned, s\<lparr>tickers :=
                       AList.update (symbol m)
                         (fold (\<lambda>(k, v). AList.update k v) (ticker_update d) ticker)
                         (tickers s)\<rparr>)))"

text \<open>
  The dispatch table \<^verbatim>\<open>messageHandlers\<close>. It is a plain object, so besides its three
  own keys a lookup also finds the members every object inherits. Called with the
  message as only argument, three of those raise \<^verbatim>\<open>TypeError\<close> (\<^verbatim>\<open>__proto__\<close> is
  not a function, the two accessor definers want a function as second argument); the
  others return without touching the session. Once \<^verbatim>\<open>Object.prototype\<close> carries
  \<^verbatim>\<open>bids\<close> and \<^verbatim>\<open>asks\<close>, a lookup under these two names finds an array, which
  \<^verbatim>\<open>onMessage\<close> then calls.
\<close>

datatype handler = TickersHandler | OrderBookHandler | InheritedRaising | InheritedInert

definition messageHandlers :: "string \<Rightarrow> handler option" where
  "messageHandlers f =
     (if f = ''ticker'' then Some TickersHandler
      else if f = ''book_snapshot'' then Some OrderBookHandler
      else if f = ''book'' then Some OrderBookHandler
      else if f \<in> set [''__proto__'', ''__defineGetter__'', ''__defineSetter__'']
        then Some InheritedRaising
      else if f \<in> set [''constructor'', ''hasOwnProperty'', ''isPrototypeOf'',
                        ''propertyIsEnumerable'', ''toLocaleString'', ''toString'',
                        ''valueOf'', ''__lookupGetter__'', ''__lookupSetter__'']
        then Some InheritedInert
      else None)"

text \<open>
  \<^verbatim>\<open>onMessage\<close>. \<^verbatim>\<open>jsonParse\<close> of \<^verbatim>\<open>utils/json-parse\<close> is not among the sources; its
  result is the argument here, \<open>None\<close> when it is \<^verbatim>\<open>null\<close> (the text did not parse)
  or any other falsy value. An empty feed name is falsy.
\<close>

definition onMessage :: "data option \<Rightarrow> ws_public \<Rightarrow> completion \<times> ws_public" where
  "onMessage parsed s =
     (if isDisposed s then (Returned, s)
      else case parsed of
        None \<Rightarrow> (Returned, s)
      | Some json \<Rightarrow>
          (case data_feed json of
             None \<Rightarrow> (Returned, s)
           | Some f \<Rightarrow>
               if f = [] then (Returned, s)
               else (case messageHandlers f of
                       None \<Rightarrow> if inherits s f then (Raised TypeError, s) else (Returned, s)
                     | Some TickersHandler \<Rightarrow> handleTickersEvent json s
                     | Some OrderBookHandler \<Rightarrow> handleOrderBookEvent json s
                     | Some InheritedRaising \<Rightarrow> (Raised TypeError, s)
                     | Some InheritedInert \<Rightarrow> (Returned, s))))"

text \<open>
  Modelled from the spec: the getter \<^verbatim>\<open>isConnected\<close> of \<^verbatim>\<open>BaseWebSocket\<close>
  (\<^verbatim>\<open>base.ws\<close>), which is not among the sources. Section 4.4 speaks of the session
  being ready to carry commands: the socket exists and is open.
\<close>

definition isConnected :: "ws_public \<Rightarrow> bool" where
  "isConnected s \<longleftrightarrow> ws s = Some OPEN"

text \<open>\<^verbatim>\<open>this.ws?.send?.(JSON.stringify(payload))\<close>: nothing without a socket.\<close>

definition ws_send :: "payload \<Rightarrow> ws_public \<Rightarrow> ws_public" where
  "ws_send p s = (case ws s of None \<Rightarrow> s | Some _ \<Rightarrow> s\<lparr>sent := sent s @ [p]\<rparr>)"

definition connectAndSubscribe :: "ws_public \<Rightarrow> ws_public" where
  "connectAndSubscribe s =
     (if \<not> isDisposed s then
        s\<lparr>ws := Some CONNECTING,
          sockets := Suc (sockets s),
          topics :=
            [(''ticker'', map (\<lambda>m. Topic ''ticker'' (market_id m)) (markets s)),
             (''book'', [])]\<rparr>
      else s)"

text \<open>\<^verbatim>\<open>[...new Set(xs)]\<close>: the first occurrence of each element, in order.\<close>

definition uniq :: "'a list \<Rightarrow> 'a list" where
  "uniq xs = fold (\<lambda>x acc. if x \<in> set acc then acc else acc @ [x]) xs []"

definition subscribe :: "ws_public \<Rightarrow> ws_public" where
  "subscribe s =
     (let ts = concat (map snd (topics s));
          feeds = uniq (map topic_feed ts)
      in fold (\<lambda>feed s'.
                 let ids = map topic_product_id (filter (\<lambda>t. topic_feed t = feed) ts)
                 in if length ids > 0 then ws_send (Payload ''subscribe'' feed ids) s'
                    else s')
              feeds s)"

definition onOpen :: "ws_public \<Rightarrow> ws_public" where
  "onOpen s = (if \<not> isDisposed s then subscribe s else s)"

text \<open>
  Modelled from the spec: \<^verbatim>\<open>onClose\<close> of \<^verbatim>\<open>BaseWebSocket\<close> (\<^verbatim>\<open>base.ws\<close>), which is not
  among the sources. Section 4.3: on a transport close the session is closed; closed is
  terminal for a disposed session, otherwise it re-enters connecting at once.
\<close>

definition onClose :: "ws_public \<Rightarrow> ws_public" where
  "onClose s =
     (let s1 = s\<lparr>ws := None\<rparr>
      in if \<not> isDisposed s1 then connectAndSubscribe s1 else s1)"

text \<open>The transport reports the socket open: its state changes, then the listener runs.\<close>

definition open_event :: "ws_public \<Rightarrow> ws_public" where
  "open_event s = onOpen (s\<lparr>ws := Some OPEN\<rparr>)"

text \<open>
  The three closures \<^verbatim>\<open>listenOrderBook\<close> can return, with what each captures: the
  retry timer, nothing, the product id.
\<close>

datatype unsubscribe = ClearRetry nat | NoOp | Release string

text \<open>
  \<^verbatim>\<open>listenOrderBook\<close>. \<^verbatim>\<open>this.topics.book\<close> is \<^verbatim>\<open>undefined\<close> until
  \<^verbatim>\<open>connectAndSubscribe\<close> has run once, and \<^verbatim>\<open>.find\<close> on it raises.
\<close>

definition listenOrderBook ::
  "string \<Rightarrow> callback \<Rightarrow> ws_public \<Rightarrow> (js_error + unsubscribe) \<times> ws_public" where
  "listenOrderBook smb cb s =
     (if \<not> loaded_markets s then
        (Inr (ClearRetry (nextTimer s)),
         s\<lparr>timers := timers s @ [(nextTimer s, smb, cb)], nextTimer := Suc (nextTimer s)\<rparr>)
      else case find (\<lambda>m. symbol m = smb) (markets s) of
        None \<Rightarrow> (Inr NoOp, s)
      | Some m \<Rightarrow>
          let productId = market_id m in
          (case map_of (topics s) ''book'' of
             None \<Rightarrow> (Inl TypeError, s)
           | Some book \<Rightarrow>
               let s1 =
                 (case find (\<lambda>t. topic_product_id t = productId) book of
                    None \<Rightarrow>
                      let s' = s\<lparr>topics :=
                                 AList.update ''book'' (book @ [Topic ''book'' productId])
                                   (topics s)\<rparr>
                      in if isConnected s' then subscribe s' else s'
                  | Some existingTopic \<Rightarrow> s)
               in (Inr (Release productId),
                   s1\<lparr>orderBookCallbacks :=
                        AList.update productId cb (orderBookCallbacks s1)\<rparr>)))"

text \<open>
  Calling a returned closure. Clearing a timer that has fired or was cleared does
  nothing, so the closure's own \<^verbatim>\<open>timeoutId = null\<close> needs no state here.
  \<^verbatim>\<open>delete this.orderBooks[productId]\<close> removes an own book; under the name of an
  inherited member there is none, and what was assigned onto the member stays.
\<close>

fun call_unsubscribe :: "unsubscribe \<Rightarrow> ws_public \<Rightarrow> js_error option \<times> ws_public" where
  "call_unsubscribe (ClearRetry t) s = (None, s\<lparr>timers := AList.delete t (timers s)\<rparr>)"
| "call_unsubscribe NoOp s = (None, s)"
| "call_unsubscribe (Release productId) s =
     (case map_of (topics s) ''book'' of
        None \<Rightarrow> (Some TypeError, s)
      | Some book \<Rightarrow>
          let s1 = s\<lparr>topics :=
                       AList.update ''book''
                         (filter (\<lambda>t. topic_product_id t \<noteq> productId) book) (topics s),
                     orderBookCallbacks := AList.delete productId (orderBookCallbacks s),
                     orderBooks :=
                       (if productId \<in> set objectPrototypeMembers then orderBooks s
                        else AList.delete productId (orderBooks s))\<rparr>
          in (None,
              if isConnected s1
              then ws_send (Payload ''unsubscribe'' ''book'' [productId]) s1
              else s1))"

text \<open>
  A pending retry timer fires: it leaves the pending list and runs
  \<^verbatim>\<open>() => this.listenOrderBook(symbol, callback)\<close>, whose result nobody receives.
\<close>

definition fire_timer :: "nat \<Rightarrow> ws_public \<Rightarrow> ws_public" where
  "fire_timer t s =
     (case map_of (timers s) t of
        None \<Rightarrow> s
      | Some (smb, cb) \<Rightarrow> snd (listenOrderBook smb cb (s\<lparr>timers := AList.delete t (timers s)\<rparr>)))"

text \<open>\<open>n\<close> calls for one symbol with one callback, collecting the closures returned.\<close>

fun listen_n :: "nat \<Rightarrow> string \<Rightarrow> callback \<Rightarrow> ws_public \<Rightarrow> unsubscribe list \<times> ws_public" where
  "listen_n 0 smb cb s = ([], s)"
| "listen_n (Suc n) smb cb s =
     (case listenOrderBook smb cb s of
        (Inl e, s') \<Rightarrow> listen_n n smb cb s'
      | (Inr u, s') \<Rightarrow> (case listen_n n smb cb s' of (us, s'') \<Rightarrow> (u # us, s'')))"

fun call_all :: "unsubscribe list \<Rightarrow> ws_public \<Rightarrow> ws_public" where
  "call_all [] s = s"
| "call_all (u # us) s = call_all us (snd (call_unsubscribe u s))"

text \<open>How many sent commands have the given event and feed and name the product.\<close>

definition commands :: "string \<Rightarrow> string \<Rightarrow> string \<Rightarrow> payload list \<Rightarrow> nat" where
  "commands ev fd productId ps =
     length (filter (\<lambda>p. event p = ev \<and> payload_feed p = fd \<and> productId \<in> set (product_ids p)) ps)"

text \<open>A new \<^verbatim>\<open>KrakenPublicWebsocket\<close> (the field initialisers) over a given store.\<close>

definition new_session :: "market list \<Rightarrow> bool \<Rightarrow> ws_public" where
  "new_session ms loaded =
     \<lparr>isDisposed = False, ws = None, sockets = 0, sent = [], topics = [],
      orderBookCallbacks = [], orderBooks = [], markets = ms, loaded_markets = loaded,
      tickers = [], timers = [], nextTimer = 0, calls = []\<rparr>"

subsection \<open>The private session: heartbeat\<close>

datatype private_payload =
    PingCmd
  | ChallengeCmd string
  | SubscribeCmd string string string string

text \<open>
  The fields of \<^verbatim>\<open>KrakenPrivateWebSocket\<close> that its connection and heartbeat code
  uses; \<open>p_timers\<close> are the pending \<^verbatim>\<open>setTimeout(() => this.ping(), ...)\<close> entries with
  their delay in milliseconds, \<open>latency\<close> is the store's field. \<^verbatim>\<open>pingAt\<close> and
  \<^verbatim>\<open>pingTimeoutId\<close> are declared by \<^verbatim>\<open>BaseWebSocket\<close>.
\<close>

record ws_private =
  p_isDisposed :: bool
  p_ws :: "readyState option"
  p_sockets :: nat
  p_sent :: "private_payload list"
  api_key :: string
  pingAt :: rat
  pingTimeoutId :: "nat option"
  p_timers :: "(nat \<times> nat) list"
  p_nextTimer :: nat
  challenge :: string
  signedChallenge :: string
  subscriptions :: "string option list"
  latency :: int

record private_msg =
  msg_event :: "string option"
  msg_message :: "string option"
  msg_feed :: "string option"

definition p_send :: "private_payload \<Rightarrow> ws_private \<Rightarrow> ws_private" where
  "p_send p s = (case p_ws s of None \<Rightarrow> s | Some _ \<Rightarrow> s\<lparr>p_sent := p_sent s @ [p]\<rparr>)"





text \<open>
  \<^verbatim>\<open>Math.round\<close> rounds to the nearest integer, a half upwards. It and the halving are
  exact on doubles; the subtraction of two readings is not, so \<^verbatim>\<open>handlePongEvent\<close>
  takes the subtraction of doubles as its parameter \<open>dminus\<close>.
\<close>

definition math_round :: "rat \<Rightarrow> int" where
  "math_round x = \<lfloor>x + 1 / 2\<rfloor>"

definition handlePongEvent :: "(rat \<Rightarrow> rat \<Rightarrow> rat) \<Rightarrow> rat \<Rightarrow> ws_private \<Rightarrow> ws_private" where
  "handlePongEvent dminus now s =
     (let diff = dminus now (pingAt s);
          s1 = s\<lparr>latency := math_round (diff / 2)\<rparr>;
          s2 = (case pingTimeoutId s1 of
                  Some t \<Rightarrow> s1\<lparr>p_timers := AList.delete t (p_timers s1), pingTimeoutId := None\<rparr>
                | None \<Rightarrow> s1)
      in s2\<lparr>pingTimeoutId := Some (p_nextTimer s2),
            p_timers := p_timers s2 @ [(p_nextTimer s2, 10000)],
            p_nextTimer := Suc (p_nextTimer s2)\<rparr>)"

definition sendSubscribeRequest :: "ws_private \<Rightarrow> ws_private" where
  "sendSubscribeRequest s =
     (if challenge s \<noteq> [] \<and> signedChallenge s \<noteq> [] then
        fold (\<lambda>feed. p_send (SubscribeCmd feed (api_key s) (challenge s) (signedChallenge s)))
          [''open_orders'', ''open_positions'', ''balances''] s
      else s)"

text \<open>
  The private \<^verbatim>\<open>onMessage\<close>. \<open>signChallenge\<close> (SHA-256, then HMAC-SHA-512 with the
  decoded secret, in base64) is a parameter; it raises on a challenge message without
  a text, after \<^verbatim>\<open>this.challenge\<close> has taken the missing text (falsy, here the empty
  string). The handlers of the order, position and balance feeds write to the store
  only, which this record does not hold.
\<close>

definition private_onMessage ::
  "(string \<Rightarrow> string) \<Rightarrow> (rat \<Rightarrow> rat \<Rightarrow> rat) \<Rightarrow> rat \<Rightarrow> private_msg option \<Rightarrow> ws_private \<Rightarrow>
     js_error option \<times> ws_private" where
  "private_onMessage signChallenge dminus now parsed s =
     (case parsed of
        None \<Rightarrow> (None, s)
      | Some m \<Rightarrow>
          if msg_event m = Some ''alert'' \<and> msg_message m = Some ''Bad websocket message''
            then (None, handlePongEvent dminus now s)
          else if msg_event m = Some ''challenge'' then
            (case msg_message m of
               None \<Rightarrow> (Some TypeError, s\<lparr>challenge := []\<rparr>)
             | Some c \<Rightarrow>
                 (None, sendSubscribeRequest
                          (s\<lparr>challenge := c, signedChallenge := signChallenge c\<rparr>)))
          else if msg_event m = Some ''subscribed'' then
            (None, s\<lparr>subscriptions :=
                      (if msg_feed m \<in> set (subscriptions s) then subscriptions s
                       else subscriptions s @ [msg_feed m])\<rparr>)
          else (None, s))"




subsection \<open>The request signer: nonces\<close>

definition ENDPOINTS_MARKETS :: string where
  "ENDPOINTS_MARKETS = ''/derivatives/api/v3/instruments''"

definition ENDPOINTS_TICKERS :: string where
  "ENDPOINTS_TICKERS = ''/derivatives/api/v3/tickers''"

definition ENDPOINTS_KLINE :: string where
  "ENDPOINTS_KLINE = ''/api/charts/v1''"

definition PUBLIC_ENDPOINTS :: "string list" where
  "PUBLIC_ENDPOINTS = [ENDPOINTS_MARKETS, ENDPOINTS_TICKERS, ENDPOINTS_MARKETS, ENDPOINTS_KLINE]"

text \<open>
  The request interceptor of \<^verbatim>\<open>createAPI\<close>, as far as the nonce goes: a request whose
  url starts with a public endpoint is returned as it came, every other request gets
  the header \<^verbatim>\<open>Nonce\<close> from \<^verbatim>\<open>(Date.now() * 1000).toString()\<close>. The argument \<open>now\<close>
  is the reading of \<^verbatim>\<open>Date.now()\<close>, in milliseconds; the product is exact in a double
  for every reading below \<open>2^53 / 1000\<close>. The nonce is modelled by its numeric value.
  The message that is hashed and the signature do not feed back into the nonce.
\<close>

definition nonce_header :: "int \<Rightarrow> string option \<Rightarrow> int option" where
  "nonce_header now url =
     (if (case url of None \<Rightarrow> False
          | Some u \<Rightarrow> list_ex (\<lambda>str. prefix str u) PUBLIC_ENDPOINTS)
      then None
      else Some (now * 1000))"

text \<open>The nonces of a run of requests, each with the clock reading at its signing.\<close>

definition nonces :: "(int \<times> string option) list \<Rightarrow> int list" where
  "nonces reqs = List.map_filter (\<lambda>(now, url). nonce_header now url) reqs"

subsection \<open>Properties of a book\<close>

text \<open>
  A side is in order: strictly sorted by price in the given direction, one entry per
  price, and each total the sum of the amounts up to and including its entry.
\<close>

definition side_ok :: "(rat \<Rightarrow> rat \<Rightarrow> bool) \<Rightarrow> entry list \<Rightarrow> bool" where
  "side_ok before side \<longleftrightarrow>
     sorted_wrt (\<lambda>a b. before (price a) (price b)) side \<and>
     distinct (map price side) \<and>
     (\<forall>i<length side. total (side ! i) = sum_list (map amount (take (Suc i) side)))"

definition book_ok :: "orderBook \<Rightarrow> bool" where
  "book_ok ob \<longleftrightarrow> side_ok (>) (bids ob) \<and> side_ok (<) (asks ob)"

subsection \<open>Example sessions\<close>

definition xbt :: market where
  "xbt = Market ''PF_XBTUSD'' ''XBTUSD''"

text \<open>A session over a loaded store, connected and open.\<close>

definition connected :: ws_public where
  "connected = open_event (connectAndSubscribe (new_session [xbt] True))"

text \<open>The same with one listener on the book of \<open>XBTUSD\<close>.\<close>

definition listening :: ws_public where
  "listening = snd (listenOrderBook ''XBTUSD'' 1 connected)"

text \<open>A session that connected before the store had loaded its markets.\<close>

definition unloaded :: ws_public where
  "unloaded = open_event (connectAndSubscribe (new_session [] False))"

definition book_msg :: "string \<Rightarrow> string \<Rightarrow> rat \<Rightarrow> rat \<Rightarrow> data" where
  "book_msg productId side p q =
     \<lparr>data_feed = Some ''book'', data_product_id = productId, data_bids = None,
      data_asks = None, data_side = side, data_price = p, data_qty = q, data_ticker = []\<rparr>"

definition snapshot_msg :: "string \<Rightarrow> level list option \<Rightarrow> level list option \<Rightarrow> data" where
  "snapshot_msg productId bs as =
     \<lparr>data_feed = Some ''book_snapshot'', data_product_id = productId, data_bids = bs,
      data_asks = as, data_side = [], data_price = 0, data_qty = 0, data_ticker = []\<rparr>"


text \<open>
  A listener registered before the markets were loaded: the call, then its first
  retry firing with the markets still not loaded, then the caller invoking the closure
  it was given, then the store loading its markets, then the second retry firing.
\<close>

definition retried :: ws_public where
  "retried = fire_timer 0 (snd (listenOrderBook ''XBTUSD'' 7 unloaded))"

definition released :: ws_public where
  "released = snd (call_unsubscribe (ClearRetry 0) retried)"

definition registered_late :: ws_public where
  "registered_late = fire_timer 1 (released\<lparr>markets := [xbt], loaded_markets := True\<rparr>)"


subsection \<open>Shapes of a decoded message\<close>


text \<open>
  A message whose fields have the shape its handler reads: a snapshot carries both of
  its arrays.
\<close>

definition well_shaped :: "data \<Rightarrow> bool" where
  "well_shaped d \<longleftrightarrow>
     (data_feed d = Some ''book_snapshot'' \<longrightarrow> data_bids d \<noteq> None \<and> data_asks d \<noteq> None)"

text \<open>The book the handler starts from: the one held, or the empty one it creates.\<close>

definition book_before :: "ws_public \<Rightarrow> string \<Rightarrow> orderBook" where
  "book_before s productId =
     (case map_of (orderBooks s) productId of
        Some ob \<Rightarrow> ob
      | None \<Rightarrow> \<lparr>bids = [], asks = []\<rparr>)"

text \<open>
  A message applied in full to a book, in the words of section 4.5 of the spec: a
  snapshot replaces both sides, a delta changes one price level of the side it names,
  and after either the book is sorted and its totals are recomputed.
\<close>

definition applied :: "data \<Rightarrow> orderBook \<Rightarrow> orderBook" where
  "applied d ob =
     calcOrderBookTotal (sortOrderBook
       (if data_feed d = Some ''book_snapshot'' then
          \<lparr>bids = map snapshot_entry (case data_bids d of Some bs \<Rightarrow> bs | None \<Rightarrow> []),
           asks = map snapshot_entry (case data_asks d of Some as \<Rightarrow> as | None \<Rightarrow> [])\<rparr>
        else if data_feed d = Some ''book'' then
          (if data_side d = ''buy''
           then ob\<lparr>bids := apply_delta (data_price d) (data_qty d) (bids ob)\<rparr>
           else ob\<lparr>asks := apply_delta (data_price d) (data_qty d) (asks ob)\<rparr>)
        else ob))"

text \<open>The command \<^verbatim>\<open>subscribe\<close> sends for one feed of a list of topics.\<close>

definition subscribe_payload :: "topic list \<Rightarrow> string \<Rightarrow> payload" where
  "subscribe_payload ts f =
     Payload ''subscribe'' f (map topic_product_id (filter (\<lambda>t. topic_feed t = f) ts))"

section \<open>Order book synchronisation\<close>

subsection \<open>Running totals and sorting\<close>

lemma running_total_price: "map price (running_total acc es) = map price es"
  by (induction es arbitrary: acc) auto

lemma running_total_amount: "map amount (running_total acc es) = map amount es"
  by (induction es arbitrary: acc) auto

lemma running_total_length: "length (running_total acc es) = length es"
  by (induction es arbitrary: acc) auto

lemma running_total_nth:
  "i < length es \<Longrightarrow>
     total (running_total acc es ! i) = acc + sum_list (map amount (take (Suc i) es))"
proof (induction es arbitrary: acc i)
  case Nil
  then show ?case by simp
next
  case (Cons e es)
  show ?case
  proof (cases i)
    case 0
    then show ?thesis by simp
  next
    case (Suc j)
    with Cons.prems have "j < length es" by simp
    from Cons.IH [OF this, of "acc + amount e"] Suc show ?thesis
      by (simp add: add.assoc)
  qed
qed

lemma running_total_sums:
  assumes "i < length (running_total 0 es)"
  shows "total (running_total 0 es ! i) =
           sum_list (map amount (take (Suc i) (running_total 0 es)))"
proof -
  from assms have i: "i < length es" by (simp add: running_total_length)
  have "map amount (take (Suc i) (running_total 0 es)) = map amount (take (Suc i) es)"
    by (simp add: take_map [symmetric] running_total_amount)
  with running_total_nth [OF i, of 0] show ?thesis by simp
qed

lemma sorted_wrt_price_map:
  "sorted_wrt (\<lambda>a b. before (price a) (price b)) xs = sorted_wrt before (map price xs)"
  by (simp add: sorted_wrt_map)

lemma running_total_sorted:
  "sorted_wrt (\<lambda>a b. before (price a) (price b)) (running_total acc es) =
   sorted_wrt (\<lambda>a b. before (price a) (price b)) es"
  by (simp only: sorted_wrt_price_map running_total_price)

lemma distinct_sort_key_price:
  "distinct (map price (sort_key f es)) = distinct (map price es)"
  by (simp add: distinct_map)

lemma strict_asc:
  "sorted_wrt (\<lambda>a b. price a \<le> price b) xs \<Longrightarrow> distinct (map price xs) \<Longrightarrow>
   sorted_wrt (\<lambda>a b. price a < price b) xs"
  by (induction xs) (auto simp: less_le)

lemma strict_desc:
  "sorted_wrt (\<lambda>a b. price b \<le> price a) xs \<Longrightarrow> distinct (map price xs) \<Longrightarrow>
   sorted_wrt (\<lambda>a b. price b < price a) xs"
  by (induction xs) (auto simp: less_le image_iff)

lemma asks_sorted:
  assumes "distinct (map price es)"
  shows "sorted_wrt (\<lambda>a b. price a < price b) (sort_key price es)"
proof -
  have "sorted (map price (sort_key price es))" by (rule sorted_sort_key)
  then have "sorted_wrt (\<lambda>a b. price a \<le> price b) (sort_key price es)"
    by (simp add: sorted_wrt_map)
  then show ?thesis
    using assms by (intro strict_asc) (simp_all add: distinct_sort_key_price)
qed

lemma bids_sorted:
  assumes "distinct (map price es)"
  shows "sorted_wrt (\<lambda>a b. price a > price b) (sort_key (\<lambda>e. - price e) es)"
proof -
  have "sorted (map (\<lambda>e. - price e) (sort_key (\<lambda>e. - price e) es))" by (rule sorted_sort_key)
  then have "sorted_wrt (\<lambda>a b. price b \<le> price a) (sort_key (\<lambda>e. - price e) es)"
    by (simp add: sorted_wrt_map)
  then show ?thesis
    using assms by (intro strict_desc) (simp_all add: distinct_sort_key_price)
qed

subsection \<open>One event keeps a book in order\<close>

subsection \<open>One event keeps a book in order\<close>

lemma findIndex_Some: "findIndex P xs = Some i \<Longrightarrow> i < length xs \<and> P (xs ! i)"
  by (induction xs arbitrary: i) (auto split: if_splits)

lemma findIndex_None: "findIndex P xs = None \<longleftrightarrow> (\<forall>x\<in>set xs. \<not> P x)"
  by (induction xs) auto

lemma distinct_splice1: "distinct xs \<Longrightarrow> distinct (splice1 i xs)"
  by (simp add: splice1_def set_take_disj_set_drop_if_distinct)

lemma map_splice1: "map f (splice1 i xs) = splice1 i (map f xs)"
  by (simp add: splice1_def take_map drop_map)

lemma apply_delta_distinct:
  assumes "distinct (map price side)"
  shows "distinct (map price (apply_delta p q side))"
proof (cases "findIndex (\<lambda>order. price order = p) side")
  case None
  then have "p \<notin> price ` set side" by (auto simp: findIndex_None)
  with assms None show ?thesis by (simp add: apply_delta_def)
next
  case (Some i)
  then have i: "i < length side" by (simp add: findIndex_Some)
  have "map price (side[i := (side ! i)\<lparr>amount := q\<rparr>]) = map price side"
    using i by (simp add: map_update list_update_same_conv)
  with assms Some show ?thesis
    by (simp add: apply_delta_def map_splice1 distinct_splice1)
qed

lemma side_ok_asks:
  assumes "distinct (map price es)"
  shows "side_ok (<) (running_total 0 (sort_key price es))"
  unfolding side_ok_def
proof (intro conjI allI impI)
  show "sorted_wrt (\<lambda>a b. price a < price b) (running_total 0 (sort_key price es))"
    using assms by (simp only: running_total_sorted asks_sorted)
  show "distinct (map price (running_total 0 (sort_key price es)))"
    using assms by (simp only: running_total_price distinct_sort_key_price)
  fix i assume "i < length (running_total 0 (sort_key price es))"
  then show "total (running_total 0 (sort_key price es) ! i) =
      sum_list (map amount (take (Suc i) (running_total 0 (sort_key price es))))"
    by (rule running_total_sums)
qed

lemma side_ok_bids:
  assumes "distinct (map price es)"
  shows "side_ok (>) (running_total 0 (sort_key (\<lambda>e. - price e) es))"
  unfolding side_ok_def
proof (intro conjI allI impI)
  show "sorted_wrt (\<lambda>a b. price a > price b) (running_total 0 (sort_key (\<lambda>e. - price e) es))"
    using assms running_total_sorted [of "\<lambda>x y. y < x" 0 "sort_key (\<lambda>e. - price e) es"]
    by (simp add: bids_sorted)
  show "distinct (map price (running_total 0 (sort_key (\<lambda>e. - price e) es)))"
    using assms by (simp only: running_total_price distinct_sort_key_price)
  fix i assume "i < length (running_total 0 (sort_key (\<lambda>e. - price e) es))"
  then show "total (running_total 0 (sort_key (\<lambda>e. - price e) es) ! i) =
      sum_list (map amount (take (Suc i) (running_total 0 (sort_key (\<lambda>e. - price e) es))))"
    by (rule running_total_sums)
qed

lemma book_ok_sorted_totalled:
  assumes "distinct (map price (bids ob))" and "distinct (map price (asks ob))"
  shows "book_ok (calcOrderBookTotal (sortOrderBook ob))"
  using assms
  by (simp add: book_ok_def calcOrderBookTotal_def sortOrderBook_def side_ok_bids side_ok_asks)

lemma side_ok_distinct: "side_ok before side \<Longrightarrow> distinct (map price side)"
  by (simp add: side_ok_def)

lemma update_twice: "AList.update k v (AList.update k w al) = AList.update k v al"
  by (induction al) auto

lemma invoke_frame:
  "orderBooks (snd (invoke c ob s)) = orderBooks s"
  "orderBookCallbacks (snd (invoke c ob s)) = orderBookCallbacks s"
  by (simp_all add: invoke_def split: callback_value.splits)

lemma invoke_registered:
  "invoke (Registered cb) ob s = (Returned, s\<lparr>calls := calls s @ [(cb, ob)]\<rparr>)"
  by (simp add: invoke_def)

lemma finish_book:
  "map_of (orderBooks (snd (finish pid c ob s))) pid = Some (calcOrderBookTotal (sortOrderBook ob))"
  by (simp add: finish_def Let_def invoke_frame update_conv')

lemma finish_callbacks: "orderBookCallbacks (snd (finish pid c ob s)) = orderBookCallbacks s"
  by (simp add: finish_def Let_def invoke_frame)

lemma finish_registered:
  "finish pid (Registered cb) ob s =
     (Returned, s\<lparr>orderBooks := AList.update pid (calcOrderBookTotal (sortOrderBook ob)) (orderBooks s),
                  calls := calls s @ [(cb, calcOrderBookTotal (sortOrderBook ob))]\<rparr>)"
  by (simp add: finish_def Let_def invoke_registered)

lemma on_book_callbacks:
  "orderBookCallbacks s1 = cbs \<Longrightarrow> orderBookCallbacks (snd (on_book d pid c ob s1)) = cbs"
  by (simp add: on_book_def Let_def finish_callbacks split: option.splits)

lemma on_member_callbacks: "orderBookCallbacks (snd (on_member d pid c s)) = orderBookCallbacks s"
  by (simp add: on_member_def finish_callbacks split: option.splits)

lemma handleOrderBookEvent_callbacks:
  "orderBookCallbacks (snd (handleOrderBookEvent d s)) = orderBookCallbacks s"
  by (simp add: handleOrderBookEvent_def Let_def on_book_callbacks on_member_callbacks
      split: option.splits)

lemma callback_at_registered:
  "map_of (orderBookCallbacks s) pid = Some cb \<Longrightarrow> callback_at s pid = Some (Registered cb)"
  by (simp add: callback_at_def)

lemma snapshot_prices: "price \<circ> snapshot_entry = level_price"
  by (rule ext) (simp add: snapshot_entry_def)

lemma on_book_in_full:
  assumes "well_shaped d" and "map_of (orderBooks s1) pid = Some ob0"
  shows "on_book d pid (Registered cb) ob s1 =
     (Returned, s1\<lparr>orderBooks := AList.update pid (applied d ob) (orderBooks s1),
                   calls := calls s1 @ [(cb, applied d ob)]\<rparr>)"
proof -
  have rec: "ob\<lparr>bids := b, asks := a\<rparr> = \<lparr>bids = b, asks = a\<rparr>" for a b
    by (cases ob) simp
  from assms(1) show ?thesis
    by (auto simp: on_book_def well_shaped_def applied_def Let_def finish_registered
        update_twice rec)
qed

lemma handled_in_full:
  assumes "map_of (orderBookCallbacks s) pid = Some cb" and "data_product_id d = pid"
    and "well_shaped d"
    and "\<not> inherits s pid \<or> map_of (orderBooks s) pid \<noteq> None"
  shows "handleOrderBookEvent d s =
     (Returned, s\<lparr>orderBooks := AList.update pid (applied d (book_before s pid)) (orderBooks s),
                  calls := calls s @ [(cb, applied d (book_before s pid))]\<rparr>)"
proof (cases "map_of (orderBooks s) pid")
  case (Some ob)
  with assms(1,2) on_book_in_full [OF assms(3) Some, of cb ob] show ?thesis
    by (simp add: handleOrderBookEvent_def callback_at_registered book_before_def)
next
  case None
  let ?e = "\<lparr>bids = [], asks = []\<rparr>"
  let ?s1 = "s\<lparr>orderBooks := AList.update pid ?e (orderBooks s)\<rparr>"
  have "map_of (orderBooks ?s1) pid = Some ?e" by (simp add: update_conv')
  from on_book_in_full [OF assms(3) this, of cb ?e] None assms(1,2,4) show ?thesis
    by (simp add: handleOrderBookEvent_def callback_at_registered book_before_def update_twice)
qed

lemma snapshot_in_full:
  assumes "map_of (orderBookCallbacks s) pid = Some cb" and "data_product_id d = pid"
    and "data_feed d = Some ''book_snapshot''"
    and "data_bids d = Some bs" and "data_asks d = Some as"
  shows "handleOrderBookEvent d s =
     (Returned, s\<lparr>orderBooks := AList.update pid (applied d (book_before s pid)) (orderBooks s),
                  calls := calls s @ [(cb, applied d (book_before s pid))]\<rparr>)"
proof (cases "inherits s pid \<and> map_of (orderBooks s) pid = None")
  case True
  with assms show ?thesis
    by (simp add: handleOrderBookEvent_def callback_at_registered on_member_def
        finish_registered applied_def)
next
  case False
  have "well_shaped d" using assms(4,5) by (simp add: well_shaped_def)
  with assms(1,2) False show ?thesis by (intro handled_in_full) auto
qed

lemma snapshot_step:
  assumes "map_of (orderBookCallbacks s) pid = Some cb"
    and "data_feed d = Some ''book_snapshot''" and "data_product_id d = pid"
    and "data_bids d = Some bs" and "data_asks d = Some as"
    and "distinct (map level_price bs)" and "distinct (map level_price as)"
  shows "fst (handleOrderBookEvent d s) = Returned \<and>
         (\<exists>ob. map_of (orderBooks (snd (handleOrderBookEvent d s))) pid = Some ob \<and> book_ok ob)"
proof -
  have "book_ok (applied d ob)" for ob
    using assms(2,4-7) unfolding applied_def
    by (intro book_ok_sorted_totalled) (simp_all add: snapshot_prices)
  with snapshot_in_full [OF assms(1,3,2,4,5)] show ?thesis
    by (simp add: update_conv')
qed

lemma delta_step:
  assumes "map_of (orderBookCallbacks s) pid = Some cb"
    and "data_feed d = Some ''book''" and "data_product_id d = pid"
    and "map_of (orderBooks s) pid = Some ob" and "book_ok ob"
  shows "fst (handleOrderBookEvent d s) = Returned \<and>
         (\<exists>ob'. map_of (orderBooks (snd (handleOrderBookEvent d s))) pid = Some ob' \<and> book_ok ob')"
proof -
  from assms(5) have db: "distinct (map price (bids ob))" and da: "distinct (map price (asks ob))"
    by (simp_all add: book_ok_def side_ok_def)
  have "book_ok (applied d ob)"
    using assms(2) db da unfolding applied_def
    by (intro book_ok_sorted_totalled) (simp_all add: apply_delta_distinct)
  moreover have "well_shaped d" using assms(2) by (simp add: well_shaped_def)
  moreover have "book_before s pid = ob" using assms(4) by (simp add: book_before_def)
  ultimately show ?thesis
    using handled_in_full [OF assms(1,3), of ] assms(4) by (simp add: update_conv')
qed

lemma deltas_run:
  assumes "map_of (orderBookCallbacks s) pid = Some cb"
    and "\<forall>d\<in>set ds. data_feed d = Some ''book'' \<and> data_product_id d = pid"
    and "map_of (orderBooks s) pid = Some ob" and "book_ok ob"
  shows "\<exists>ob'. map_of (orderBooks (handleOrderBookEvents ds s)) pid = Some ob' \<and> book_ok ob'"
  using assms
proof (induction ds arbitrary: s ob)
  case Nil
  then show ?case by simp
next
  case (Cons d ds)
  let ?s = "snd (handleOrderBookEvent d s)"
  from Cons.prems have d: "data_feed d = Some ''book''" "data_product_id d = pid" by simp_all
  from delta_step [OF Cons.prems(1) d Cons.prems(3,4)]
  obtain ob' where ob': "map_of (orderBooks ?s) pid = Some ob'" "book_ok ob'" by blast
  have cb: "map_of (orderBookCallbacks ?s) pid = Some cb"
    using Cons.prems(1) by (simp add: handleOrderBookEvent_callbacks)
  from Cons.prems(2) have rest: "\<forall>d\<in>set ds. data_feed d = Some ''book'' \<and> data_product_id d = pid"
    by simp
  from Cons.IH [OF cb rest ob'] show ?case by simp
qed

lemma listening_eq:
  "listening =
     \<lparr>isDisposed = False, ws = Some OPEN, sockets = 1,
      sent = [Payload ''subscribe'' ''ticker'' [''PF_XBTUSD''],
              Payload ''subscribe'' ''ticker'' [''PF_XBTUSD''],
              Payload ''subscribe'' ''book'' [''PF_XBTUSD'']],
      topics = [(''ticker'', [Topic ''ticker'' ''PF_XBTUSD'']),
                (''book'', [Topic ''book'' ''PF_XBTUSD''])],
      orderBookCallbacks = [(''PF_XBTUSD'', 1)], orderBooks = [],
      markets = [Market ''PF_XBTUSD'' ''XBTUSD''], loaded_markets = True,
      tickers = [], timers = [], nextTimer = 0, calls = []\<rparr>"
  by code_simp

text \<open>
  C1, as amended. Where a callback is registered for the product, a snapshot that
  lists each price at most once on each side, followed by any sequence of \<^verbatim>\<open>book\<close>
  messages for that product, leaves a book whose bids are strictly descending and
  whose asks are strictly ascending by price, with one entry per price and with each
  total the sum of the amounts up to its entry.
\<close>

theorem snapshot_then_deltas_book_ok:
  assumes "map_of (orderBookCallbacks s) pid = Some cb"
    and "data_feed snap = Some ''book_snapshot''" and "data_product_id snap = pid"
    and "data_bids snap = Some bs" and "data_asks snap = Some as"
    and "distinct (map level_price bs)" and "distinct (map level_price as)"
    and "\<forall>d\<in>set ds. data_feed d = Some ''book'' \<and> data_product_id d = pid"
  shows "\<exists>ob. map_of (orderBooks (handleOrderBookEvents (snap # ds) s)) pid = Some ob \<and> book_ok ob"
proof -
  let ?s = "snd (handleOrderBookEvent snap s)"
  from snapshot_step [OF assms(1-7)]
  obtain ob where ob: "map_of (orderBooks ?s) pid = Some ob" "book_ok ob" by blast
  have cb: "map_of (orderBookCallbacks ?s) pid = Some cb"
    using assms(1) by (simp add: handleOrderBookEvent_callbacks)
  from deltas_run [OF cb assms(8) ob] show ?thesis by simp
qed

theorem snapshot_then_deltas_book_ok_witness:
  "map_of (orderBookCallbacks listening) ''PF_XBTUSD'' = Some 1 \<and>
   distinct (map level_price [Level 100 2]) \<and> distinct (map level_price [Level 101 3]) \<and>
   (\<exists>ob. map_of (orderBooks (handleOrderBookEvents
                 [snapshot_msg ''PF_XBTUSD'' (Some [Level 100 2]) (Some [Level 101 3]),
                  book_msg ''PF_XBTUSD'' ''buy'' 101 1] listening)) ''PF_XBTUSD'' = Some ob \<and>
         book_ok ob \<and>
         bids ob = [\<lparr>price = 101, amount = 1, total = 1\<rparr>,
                    \<lparr>price = 100, amount = 2, total = 3\<rparr>])"
proof -
  let ?snap = "snapshot_msg ''PF_XBTUSD'' (Some [Level 100 2]) (Some [Level 101 3])"
  let ?ds = "[book_msg ''PF_XBTUSD'' ''buy'' 101 1]"
  have cb: "map_of (orderBookCallbacks listening) ''PF_XBTUSD'' = Some 1"
    by (simp add: listening_eq)
  have snap: "data_feed ?snap = Some ''book_snapshot''" "data_product_id ?snap = ''PF_XBTUSD''"
    "data_bids ?snap = Some [Level 100 2]" "data_asks ?snap = Some [Level 101 3]"
    by (simp_all add: snapshot_msg_def)
  have d: "distinct (map level_price [Level 100 2])" "distinct (map level_price [Level 101 3])"
    by simp_all
  have ds: "\<forall>d\<in>set ?ds. data_feed d = Some ''book'' \<and> data_product_id d = ''PF_XBTUSD''"
    by (simp add: book_msg_def)
  from snapshot_then_deltas_book_ok [OF cb snap d ds]
  obtain ob where ob: "map_of (orderBooks (handleOrderBookEvents (?snap # ?ds) listening))
                         ''PF_XBTUSD'' = Some ob" "book_ok ob"
    by blast
  have run: "map_of (orderBooks (handleOrderBookEvents (?snap # ?ds) listening)) ''PF_XBTUSD'' =
          Some \<lparr>bids = [\<lparr>price = 101, amount = 1, total = 1\<rparr>,
                        \<lparr>price = 100, amount = 2, total = 3\<rparr>],
                asks = [\<lparr>price = 101, amount = 3, total = 3\<rparr>]\<rparr>"
    by code_simp
  with ob have "bids ob = [\<lparr>price = 101, amount = 1, total = 1\<rparr>,
                           \<lparr>price = 100, amount = 2, total = 3\<rparr>]"
    by simp
  with cb d ob show ?thesis by blast
qed

theorem duplicate_snapshot_counterexample:
  "map_of (orderBooks (handleOrderBookEvents
             [snapshot_msg ''PF_XBTUSD'' (Some [Level 100 1, Level 100 2]) (Some [])]
             listening)) ''PF_XBTUSD'' =
     Some \<lparr>bids = [\<lparr>price = 100, amount = 1, total = 1\<rparr>,
                  \<lparr>price = 100, amount = 2, total = 3\<rparr>], asks = []\<rparr> \<and>
   \<not> book_ok \<lparr>bids = [\<lparr>price = 100, amount = 1, total = 1\<rparr>,
                       \<lparr>price = 100, amount = 2, total = 3\<rparr>], asks = []\<rparr>"
proof
  show "map_of (orderBooks (handleOrderBookEvents
             [snapshot_msg ''PF_XBTUSD'' (Some [Level 100 1, Level 100 2]) (Some [])]
             listening)) ''PF_XBTUSD'' =
     Some \<lparr>bids = [\<lparr>price = 100, amount = 1, total = 1\<rparr>,
                  \<lparr>price = 100, amount = 2, total = 3\<rparr>], asks = []\<rparr>"
    by code_simp
  show "\<not> book_ok \<lparr>bids = [\<lparr>price = 100, amount = 1, total = 1\<rparr>,
                       \<lparr>price = 100, amount = 2, total = 3\<rparr>], asks = []\<rparr>"
    by (simp add: book_ok_def side_ok_def)
qed

text \<open>
  C2. A \<^verbatim>\<open>book\<close> message with quantity 0 for a price that the side does not hold should
  leave the book as it was. The handler removes a level only when it finds the price;
  a price it does not find goes to the last branch, which appends a level whatever the
  quantity. At bids \<open>[{100, 2}]\<close>, the message \<open>{buy, 99, 0}\<close> leaves a level
  of amount 0 at price 99.
\<close>

theorem zero_qty_absent_price_inserts:
  "map_of (orderBooks (handleOrderBookEvents
             [snapshot_msg ''PF_XBTUSD'' (Some [Level 100 2]) (Some [Level 101 3])]
             listening)) ''PF_XBTUSD'' =
     Some \<lparr>bids = [\<lparr>price = 100, amount = 2, total = 2\<rparr>],
           asks = [\<lparr>price = 101, amount = 3, total = 3\<rparr>]\<rparr> \<and>
   map_of (orderBooks (handleOrderBookEvents
             [snapshot_msg ''PF_XBTUSD'' (Some [Level 100 2]) (Some [Level 101 3]),
              book_msg ''PF_XBTUSD'' ''buy'' 99 0]
             listening)) ''PF_XBTUSD'' =
     Some \<lparr>bids = [\<lparr>price = 100, amount = 2, total = 2\<rparr>,
                  \<lparr>price = 99, amount = 0, total = 2\<rparr>],
           asks = [\<lparr>price = 101, amount = 3, total = 3\<rparr>]\<rparr>"
  by code_simp




section \<open>Subscriptions\<close>

subsection \<open>What \<open>subscribe\<close> sends\<close>

lemma uniq_fold:
  "distinct acc \<Longrightarrow>
   distinct (fold (\<lambda>x acc. if x \<in> set acc then acc else acc @ [x]) xs acc) \<and>
   set (fold (\<lambda>x acc. if x \<in> set acc then acc else acc @ [x]) xs acc) = set acc \<union> set xs"
  by (induction xs arbitrary: acc) auto

lemma distinct_uniq: "distinct (uniq xs)"
  using uniq_fold [of "[]" xs] by (simp add: uniq_def)

lemma set_uniq: "set (uniq xs) = set xs"
  using uniq_fold [of "[]" xs] by (simp add: uniq_def)

lemma ws_send_open: "ws s = Some r \<Longrightarrow> ws_send p s = s\<lparr>sent := sent s @ [p]\<rparr>"
  by (simp add: ws_send_def)

lemma fold_send:
  "ws s = Some r \<Longrightarrow> \<forall>f\<in>set fs. P f \<Longrightarrow>
   fold (\<lambda>feed s'. if P feed then ws_send (mk feed) s' else s') fs s =
     s\<lparr>sent := sent s @ map mk fs\<rparr>"
proof (induction fs arbitrary: s)
  case Nil
  then show ?case by simp
next
  case (Cons f fs)
  have "ws (ws_send (mk f) s) = Some r" using Cons.prems(1) by (simp add: ws_send_open)
  from Cons.IH [OF this] Cons.prems show ?case by (simp add: ws_send_open)
qed

lemma subscribe_open:
  assumes "ws s = Some r"
  shows "subscribe s =
     s\<lparr>sent := sent s @ map (subscribe_payload (concat (map snd (topics s))))
                          (uniq (map topic_feed (concat (map snd (topics s)))))\<rparr>"
proof -
  let ?ts = "concat (map snd (topics s))"
  have ne: "\<forall>f\<in>set (uniq (map topic_feed ?ts)).
              0 < length (map topic_product_id (filter (\<lambda>t. topic_feed t = f) ?ts))"
    by (auto simp: set_uniq filter_empty_conv)
  from fold_send [OF assms ne,
      of "\<lambda>f. Payload ''subscribe'' f (map topic_product_id (filter (\<lambda>t. topic_feed t = f) ?ts))"]
  show ?thesis
    by (simp add: subscribe_def Let_def subscribe_payload_def [abs_def])
qed

lemma count_distinct:
  "distinct xs \<Longrightarrow> length (filter (\<lambda>y. y = x) xs) = (if x \<in> set xs then 1 else 0)"
  by (induction xs) auto

lemma commands_subscribe_payloads:
  assumes "distinct fs"
  shows "commands ''subscribe'' fd pid (map (subscribe_payload ts) fs) =
           (if fd \<in> set fs \<and> pid \<in> topic_product_id ` {t \<in> set ts. topic_feed t = fd} then 1 else 0)"
proof -
  have "filter (\<lambda>p. event p = ''subscribe'' \<and> payload_feed p = fd \<and> pid \<in> set (product_ids p))
          (map (subscribe_payload ts) fs) =
        map (subscribe_payload ts)
          (filter (\<lambda>f. f = fd \<and> pid \<in> topic_product_id ` {t \<in> set ts. topic_feed t = fd}) fs)"
    by (induction fs) (auto simp: subscribe_payload_def)
  moreover have "length (filter (\<lambda>f. f = fd \<and> Q) fs) = (if fd \<in> set fs \<and> Q then 1 else 0)" for Q
    using count_distinct [OF assms, of fd] by (cases Q) simp_all
  ultimately show ?thesis by (simp add: commands_def)
qed

lemma commands_unsubscribe_payloads:
  "commands ''unsubscribe'' fd pid (map (subscribe_payload ts) fs) = 0"
  by (simp add: commands_def subscribe_payload_def)

lemma commands_append: "commands ev fd pid (xs @ ys) = commands ev fd pid xs + commands ev fd pid ys"
  by (simp add: commands_def)

lemma commands_replicate_unsub:
  "commands ''unsubscribe'' ''book'' pid (replicate n (Payload ''unsubscribe'' ''book'' [pid])) = n"
  "commands ''subscribe'' ''book'' pid (replicate n (Payload ''unsubscribe'' ''book'' [pid])) = 0"
  by (induction n) (simp_all add: commands_def)

subsection \<open>Registering and releasing a listener\<close>

lemma find_topic_Some:
  "find (\<lambda>t. topic_product_id t = pid) (book @ [Topic ''book'' pid]) \<noteq> None"
  by (auto simp: find_None_iff intro: exI [of _ "Topic ''book'' pid"])

lemma listen_first:
  assumes "ws s = Some OPEN" and "loaded_markets s"
    and "find (\<lambda>m. symbol m = smb) (markets s) = Some m"
    and "map_of (topics s) ''book'' = Some book"
    and "find (\<lambda>t. topic_product_id t = market_id m) book = None"
  shows "\<exists>new. listenOrderBook smb cb s =
           (Inr (Release (market_id m)),
            s\<lparr>topics := AList.update ''book'' (book @ [Topic ''book'' (market_id m)]) (topics s),
              sent := sent s @ new,
              orderBookCallbacks := AList.update (market_id m) cb (orderBookCallbacks s)\<rparr>) \<and>
          commands ''subscribe'' ''book'' (market_id m) new = 1 \<and>
          commands ''unsubscribe'' ''book'' (market_id m) new = 0"
proof -
  let ?pid = "market_id m"
  let ?T = "AList.update ''book'' (book @ [Topic ''book'' ?pid]) (topics s)"
  let ?s' = "s\<lparr>topics := ?T\<rparr>"
  let ?ts = "concat (map snd ?T)"
  let ?new = "map (subscribe_payload ?ts) (uniq (map topic_feed ?ts))"
  have "map_of ?T ''book'' = Some (book @ [Topic ''book'' ?pid])"
    by (simp add: update_conv')
  then have "(''book'', book @ [Topic ''book'' ?pid]) \<in> set ?T"
    by (rule map_of_SomeD)
  then have mem: "Topic ''book'' ?pid \<in> set ?ts" by force
  then have "''book'' \<in> set (uniq (map topic_feed ?ts))"
    by (force simp: set_uniq)
  moreover from mem have "?pid \<in> topic_product_id ` {t \<in> set ?ts. topic_feed t = ''book''}"
    by force
  ultimately have one: "commands ''subscribe'' ''book'' ?pid ?new = 1"
    by (simp add: commands_subscribe_payloads distinct_uniq)
  have none: "commands ''unsubscribe'' ''book'' ?pid ?new = 0"
    by (rule commands_unsubscribe_payloads)
  have "ws ?s' = Some OPEN" using assms(1) by simp
  from subscribe_open [OF this] have sub: "subscribe ?s' = ?s'\<lparr>sent := sent s @ ?new\<rparr>"
    by simp
  have "listenOrderBook smb cb s =
           (Inr (Release ?pid),
            s\<lparr>topics := ?T, sent := sent s @ ?new,
              orderBookCallbacks := AList.update ?pid cb (orderBookCallbacks s)\<rparr>)"
    using assms by (simp add: listenOrderBook_def Let_def isConnected_def sub)
  with one none show ?thesis by blast
qed

lemma listen_again:
  assumes "loaded_markets s"
    and "find (\<lambda>m. symbol m = smb) (markets s) = Some m"
    and "map_of (topics s) ''book'' = Some book"
    and "find (\<lambda>t. topic_product_id t = market_id m) book = Some t"
  shows "listenOrderBook smb cb s =
           (Inr (Release (market_id m)),
            s\<lparr>orderBookCallbacks := AList.update (market_id m) cb (orderBookCallbacks s)\<rparr>)"
  using assms by (simp add: listenOrderBook_def Let_def)

lemma listen_n_again:
  assumes "loaded_markets s"
    and "find (\<lambda>m. symbol m = smb) (markets s) = Some m"
    and "map_of (topics s) ''book'' = Some book"
    and "find (\<lambda>t. topic_product_id t = market_id m) book = Some t"
  shows "\<exists>cbs. listen_n n smb cb s =
           (replicate n (Release (market_id m)), s\<lparr>orderBookCallbacks := cbs\<rparr>)"
  using assms
proof (induction n arbitrary: s)
  case 0
  have "s = s\<lparr>orderBookCallbacks := orderBookCallbacks s\<rparr>" by simp
  then show ?case by (metis listen_n.simps(1) replicate_0)
next
  case (Suc n)
  let ?s1 = "s\<lparr>orderBookCallbacks := AList.update (market_id m) cb (orderBookCallbacks s)\<rparr>"
  have l: "listenOrderBook smb cb s = (Inr (Release (market_id m)), ?s1)"
    using Suc.prems by (rule listen_again)
  have "\<exists>cbs. listen_n n smb cb ?s1 =
           (replicate n (Release (market_id m)), ?s1\<lparr>orderBookCallbacks := cbs\<rparr>)"
    using Suc.prems by (intro Suc.IH) simp_all
  then obtain cbs where "listen_n n smb cb ?s1 =
           (replicate n (Release (market_id m)), s\<lparr>orderBookCallbacks := cbs\<rparr>)"
    by auto
  with l show ?case by auto
qed

lemma release_open:
  assumes "ws s = Some OPEN" and "map_of (topics s) ''book'' = Some book"
  shows "call_unsubscribe (Release pid) s =
           (None, s\<lparr>topics := AList.update ''book''
                         (filter (\<lambda>t. topic_product_id t \<noteq> pid) book) (topics s),
                    orderBookCallbacks := AList.delete pid (orderBookCallbacks s),
                    orderBooks := (if pid \<in> set objectPrototypeMembers then orderBooks s
                                   else AList.delete pid (orderBooks s)),
                    sent := sent s @ [Payload ''unsubscribe'' ''book'' [pid]]\<rparr>)"
  using assms by (simp add: Let_def isConnected_def ws_send_def)

lemma call_all_release:
  assumes "ws s = Some OPEN" and "map_of (topics s) ''book'' = Some book"
  shows "sent (call_all (replicate n (Release pid)) s) =
           sent s @ replicate n (Payload ''unsubscribe'' ''book'' [pid])"
  using assms
proof (induction n arbitrary: s book)
  case 0
  then show ?case by simp
next
  case (Suc n)
  let ?s1 = "snd (call_unsubscribe (Release pid) s)"
  from release_open [OF Suc.prems] have
    s1: "ws ?s1 = Some OPEN"
        "map_of (topics ?s1) ''book'' = Some (filter (\<lambda>t. topic_product_id t \<noteq> pid) book)"
        "sent ?s1 = sent s @ [Payload ''unsubscribe'' ''book'' [pid]]"
    using Suc.prems(1) by (simp_all add: update_conv')
  from Suc.IH [OF s1(1,2)] s1(3) show ?case
    by (simp add: replicate_append_same [symmetric] del: call_unsubscribe.simps replicate_Suc)
       (simp add: replicate_append_same)
qed

lemma connected_eq:
  "connected =
     \<lparr>isDisposed = False, ws = Some OPEN, sockets = 1,
      sent = [Payload ''subscribe'' ''ticker'' [''PF_XBTUSD'']],
      topics = [(''ticker'', [Topic ''ticker'' ''PF_XBTUSD'']), (''book'', [])],
      orderBookCallbacks = [], orderBooks = [],
      markets = [Market ''PF_XBTUSD'' ''XBTUSD''], loaded_markets = True,
      tickers = [], timers = [], nextTimer = 0, calls = []\<rparr>"
  by code_simp

lemma fold_send_frame:
  "\<exists>x. fold (\<lambda>feed s'. if P feed then ws_send (mk feed) s' else s') fs s = s\<lparr>sent := x\<rparr>"
proof (induction fs arbitrary: s)
  case Nil
  have "s = s\<lparr>sent := sent s\<rparr>" by simp
  then show ?case by (metis fold_simps(1))
next
  case (Cons f fs)
  have "(if P f then ws_send (mk f) s else s) =
          s\<lparr>sent := (if P f then (case ws s of None \<Rightarrow> sent s | Some r \<Rightarrow> sent s @ [mk f])
                      else sent s)\<rparr>"
    by (simp add: ws_send_def split: option.splits)
  then obtain y where y: "(if P f then ws_send (mk f) s else s) = s\<lparr>sent := y\<rparr>" ..
  from Cons.IH [of "s\<lparr>sent := y\<rparr>"] y show ?case by auto
qed

lemma subscribe_frame: "\<exists>x. subscribe s = s\<lparr>sent := x\<rparr>"
  unfolding subscribe_def Let_def by (rule fold_send_frame)

lemma listen_registered:
  assumes "loaded_markets s"
    and "find (\<lambda>m. symbol m = smb) (markets s) = Some m"
    and "listenOrderBook smb cb s = (Inr u, s1)"
  shows "loaded_markets s1 \<and> markets s1 = markets s \<and>
         (\<exists>book t. map_of (topics s1) ''book'' = Some book \<and>
                    find (\<lambda>t. topic_product_id t = market_id m) book = Some t) \<and>
         orderBookCallbacks s1 = AList.update (market_id m) cb (orderBookCallbacks s)"
proof -
  let ?pid = "market_id m"
  from assms obtain book where book: "map_of (topics s) ''book'' = Some book"
    by (cases "map_of (topics s) ''book''") (auto simp: listenOrderBook_def)
  show ?thesis
  proof (cases "find (\<lambda>t. topic_product_id t = ?pid) book")
    case (Some t)
    from listen_again [OF assms(1,2) book Some, of cb] assms(1,3) book Some
    show ?thesis by auto
  next
    case None
    let ?s' = "s\<lparr>topics := AList.update ''book'' (book @ [Topic ''book'' ?pid]) (topics s)\<rparr>"
    obtain x where x: "subscribe ?s' = ?s'\<lparr>sent := x\<rparr>"
      using subscribe_frame by blast
    have "s1 = ?s'\<lparr>sent := (if isConnected ?s' then x else sent s),
          orderBookCallbacks := AList.update ?pid cb (orderBookCallbacks s)\<rparr>"
      using assms book None x
      by (cases "isConnected ?s'") (auto simp: listenOrderBook_def Let_def)
    then obtain y where s1: "s1 = ?s'\<lparr>sent := y,
          orderBookCallbacks := AList.update ?pid cb (orderBookCallbacks s)\<rparr>" ..
    obtain t where "find (\<lambda>t. topic_product_id t = ?pid) (book @ [Topic ''book'' ?pid]) = Some t"
      using find_topic_Some [of ?pid book] by auto
    with s1 assms(1) show ?thesis by (auto simp: update_conv')
  qed
qed

lemma invoke_calls:
  "\<exists>l. calls (snd (invoke (Registered cb) ob s)) = calls s @ l \<and> fst ` set l \<subseteq> {cb}"
  by (simp add: invoke_def)

lemma finish_calls:
  "\<exists>l. calls (snd (finish pid (Registered cb) ob s)) = calls s @ l \<and> fst ` set l \<subseteq> {cb}"
  by (simp add: finish_registered)


text \<open>
  C3, as amended. On an open socket, with the markets loaded and the symbol known: of
  \<open>n \<ge> 1\<close> calls of \<^verbatim>\<open>listenOrderBook\<close> for a symbol whose product is not yet among the
  book topics, the first sends one \<^verbatim>\<open>subscribe\<close> command of the book feed that names
  the product and the others send nothing; each of the \<open>n\<close> closures returned, when
  called, sends one \<^verbatim>\<open>unsubscribe\<close> command for the product. So \<open>n\<close> calls followed by
  \<open>n\<close> releases send one book subscription and \<open>n\<close> cancellations.
\<close>

theorem listen_n_release_n:
  assumes "ws s = Some OPEN" and "loaded_markets s"
    and "find (\<lambda>m. symbol m = smb) (markets s) = Some m"
    and "map_of (topics s) ''book'' = Some book"
    and "find (\<lambda>t. topic_product_id t = market_id m) book = None"
    and "0 < n"
  shows "\<exists>new. sent (call_all (fst (listen_n n smb cb s)) (snd (listen_n n smb cb s))) =
                  sent s @ new \<and>
               length (fst (listen_n n smb cb s)) = n \<and>
               commands ''subscribe'' ''book'' (market_id m) new = 1 \<and>
               commands ''unsubscribe'' ''book'' (market_id m) new = n"
proof -
  let ?pid = "market_id m"
  from assms(6) obtain k where n: "n = Suc k" by (cases n) auto
  from listen_first [OF assms(1-5), of cb]
  obtain new where first: "listenOrderBook smb cb s =
           (Inr (Release ?pid),
            s\<lparr>topics := AList.update ''book'' (book @ [Topic ''book'' ?pid]) (topics s),
              sent := sent s @ new,
              orderBookCallbacks := AList.update ?pid cb (orderBookCallbacks s)\<rparr>)"
    and one: "commands ''subscribe'' ''book'' ?pid new = 1"
    and none: "commands ''unsubscribe'' ''book'' ?pid new = 0"
    by blast
  let ?s1 = "s\<lparr>topics := AList.update ''book'' (book @ [Topic ''book'' ?pid]) (topics s),
              sent := sent s @ new,
              orderBookCallbacks := AList.update ?pid cb (orderBookCallbacks s)\<rparr>"
  have book1: "map_of (topics ?s1) ''book'' = Some (book @ [Topic ''book'' ?pid])"
    by (simp add: update_conv')
  obtain t where t: "find (\<lambda>t. topic_product_id t = ?pid) (book @ [Topic ''book'' ?pid]) = Some t"
    using find_topic_Some [of ?pid book] by auto
  have "\<exists>cbs. listen_n k smb cb ?s1 = (replicate k (Release ?pid), ?s1\<lparr>orderBookCallbacks := cbs\<rparr>)"
    using assms(2,3) book1 t by (intro listen_n_again) simp_all
  then obtain cbs where rest:
    "listen_n k smb cb ?s1 = (replicate k (Release ?pid), ?s1\<lparr>orderBookCallbacks := cbs\<rparr>)"
    by blast
  let ?s2 = "?s1\<lparr>orderBookCallbacks := cbs\<rparr>"
  have all: "listen_n n smb cb s = (replicate n (Release ?pid), ?s2)"
    using first rest n by simp
  have "ws ?s2 = Some OPEN" using assms(1) by simp
  moreover have "map_of (topics ?s2) ''book'' = Some (book @ [Topic ''book'' ?pid])"
    using book1 by simp
  ultimately have "sent (call_all (replicate n (Release ?pid)) ?s2) =
      sent ?s2 @ replicate n (Payload ''unsubscribe'' ''book'' [?pid])"
    by (rule call_all_release)
  then have "sent (call_all (fst (listen_n n smb cb s)) (snd (listen_n n smb cb s))) =
      sent s @ (new @ replicate n (Payload ''unsubscribe'' ''book'' [?pid]))"
    using all by simp
  moreover have "commands ''subscribe'' ''book'' ?pid
                   (new @ replicate n (Payload ''unsubscribe'' ''book'' [?pid])) = 1"
    using one by (simp add: commands_append commands_replicate_unsub)
  moreover have "commands ''unsubscribe'' ''book'' ?pid
                   (new @ replicate n (Payload ''unsubscribe'' ''book'' [?pid])) = n"
    using none by (simp add: commands_append commands_replicate_unsub)
  moreover have "length (fst (listen_n n smb cb s)) = n" using all by simp
  ultimately show ?thesis by blast
qed

theorem listen_n_release_n_witness:
  "ws connected = Some OPEN \<and> loaded_markets connected \<and>
   find (\<lambda>m. symbol m = ''XBTUSD'') (markets connected) = Some xbt \<and>
   map_of (topics connected) ''book'' = Some [] \<and>
   find (\<lambda>t. topic_product_id t = market_id xbt) [] = None \<and> (0::nat) < 2 \<and>
   (\<exists>new. sent (call_all (fst (listen_n 2 ''XBTUSD'' 1 connected))
                          (snd (listen_n 2 ''XBTUSD'' 1 connected))) = sent connected @ new \<and>
          length (fst (listen_n 2 ''XBTUSD'' 1 connected)) = 2 \<and>
          commands ''subscribe'' ''book'' (market_id xbt) new = 1 \<and>
          commands ''unsubscribe'' ''book'' (market_id xbt) new = 2)"
proof -
  have h: "ws connected = Some OPEN" "loaded_markets connected"
    "find (\<lambda>m. symbol m = ''XBTUSD'') (markets connected) = Some xbt"
    "map_of (topics connected) ''book'' = Some []"
    "find (\<lambda>t. topic_product_id t = market_id xbt) [] = None" "(0::nat) < 2"
    by (simp_all add: connected_eq xbt_def)
  from h listen_n_release_n [OF h, of 1] show ?thesis by blast
qed

theorem two_listeners_two_unsubscribes_counterexample:
  "commands ''unsubscribe'' ''book'' ''PF_XBTUSD''
     (sent (call_all (fst (listen_n 2 ''XBTUSD'' 1 connected))
                     (snd (listen_n 2 ''XBTUSD'' 1 connected)))) = 2 \<and>
   commands ''unsubscribe'' ''book'' ''PF_XBTUSD'' (sent connected) = 0"
  by code_simp





section \<open>Reconnecting\<close>

lemma uniq_replicate: "uniq (replicate (Suc n) x) = [x]"
proof -
  have "fold (\<lambda>x acc. if x \<in> set acc then acc else acc @ [x]) (replicate n x) [x] = [x]"
    by (induction n) auto
  then show ?thesis by (simp add: uniq_def)
qed

lemma connect_open_sends_tickers_only:
  assumes "\<not> isDisposed s"
  shows "sent (open_event (connectAndSubscribe s)) =
           sent s @ (if markets s = [] then []
                     else [Payload ''subscribe'' ''ticker'' (map market_id (markets s))])"
proof (cases "markets s")
  case Nil
  with assms show ?thesis
    by (simp add: open_event_def connectAndSubscribe_def onOpen_def subscribe_def uniq_def)
next
  case (Cons m ms)
  let ?ts = "map (\<lambda>m. Topic ''ticker'' (market_id m)) (markets s)"
  have feeds: "map topic_feed ?ts = replicate (Suc (length ms)) ''ticker''"
    using Cons by (simp add: comp_def map_replicate_const)
  have ids: "map topic_product_id (filter (\<lambda>t. topic_feed t = ''ticker'') ?ts) = map market_id (markets s)"
    by (induction "markets s") (simp_all add: comp_def)
  from assms Cons feeds ids show ?thesis
    by (simp add: open_event_def connectAndSubscribe_def onOpen_def subscribe_def Let_def
        uniq_replicate ws_send_def comp_def del: replicate_Suc)
qed

text \<open>
  C4. After a transport close the session connects again, and when the new socket
  opens \<^verbatim>\<open>subscribe\<close> replays the topics. \<^verbatim>\<open>connectAndSubscribe\<close> has by then assigned
  \<^verbatim>\<open>this.topics\<close> afresh, with \<^verbatim>\<open>book: []\<close>, while \<^verbatim>\<open>orderBookCallbacks\<close> keeps its
  entries. For the session listening to \<open>XBTUSD\<close>: its book topic and its callback are
  there at the close; after the reopening only the ticker subscription was sent again,
  the callback is still registered, and the book topics are empty. The last line reaches
  the same through \<^verbatim>\<open>connectAndSubscribe\<close> alone, the one place that constructs a socket.
\<close>

theorem reconnect_drops_book_subscription:
  "map_of (orderBookCallbacks listening) ''PF_XBTUSD'' = Some 1 \<and>
   map_of (topics listening) ''book'' = Some [Topic ''book'' ''PF_XBTUSD''] \<and>
   sent (open_event (onClose listening)) =
     sent listening @ [Payload ''subscribe'' ''ticker'' [''PF_XBTUSD'']] \<and>
   map_of (orderBookCallbacks (open_event (onClose listening))) ''PF_XBTUSD'' = Some 1 \<and>
   map_of (topics (open_event (onClose listening))) ''book'' = Some [] \<and>
   sent (open_event (connectAndSubscribe listening)) =
     sent listening @ [Payload ''subscribe'' ''ticker'' [''PF_XBTUSD'']]"
  by code_simp

section \<open>Registration before the markets are loaded\<close>

text \<open>
  C6. The closure returned while the markets are not loaded clears the timer of the
  call that made it. When that timer has fired and the markets were still not loaded,
  the retry has set a second timer whose id no closure holds: invoking the closure then
  leaves that timer pending, and once the markets are loaded the retry registers the
  callback and subscribes, and the next snapshot invokes the callback.
\<close>

theorem retry_timer_outlives_unsubscribe:
  "listenOrderBook ''XBTUSD'' 7 unloaded =
     (Inr (ClearRetry 0), unloaded\<lparr>timers := [(0, ''XBTUSD'', 7)], nextTimer := 1\<rparr>) \<and>
   timers retried = [(1, ''XBTUSD'', 7)] \<and>
   timers released = [(1, ''XBTUSD'', 7)] \<and>
   orderBookCallbacks registered_late = [(''PF_XBTUSD'', 7)] \<and>
   sent registered_late = [Payload ''subscribe'' ''book'' [''PF_XBTUSD'']] \<and>
   calls (snd (onMessage
                 (Some (snapshot_msg ''PF_XBTUSD'' (Some [Level 100 2]) (Some [Level 101 3])))
                 registered_late)) =
     [(7, \<lparr>bids = [\<lparr>price = 100, amount = 2, total = 2\<rparr>],
            asks = [\<lparr>price = 101, amount = 3, total = 3\<rparr>]\<rparr>)]"
  by code_simp

section \<open>Malformed messages\<close>






section \<open>Heartbeat of the private session\<close>










section \<open>Nonces\<close>

lemma nonces_map:
  "nonces reqs = map (\<lambda>r. fst r * 1000) (filter (\<lambda>r. nonce_header (fst r) (snd r) \<noteq> None) reqs)"
proof -
  have "nonce_header now url \<noteq> None \<Longrightarrow> the (nonce_header now url) = now * 1000" for now url
    by (simp add: nonce_header_def split: if_splits)
  then show ?thesis
    by (auto simp: nonces_def List.map_filter_def case_prod_unfold intro!: map_cong)
qed

text \<open>
  C5, as amended. The nonce of a signed request is 1000 times the reading of the
  millisecond clock at its signing. The nonces of a run of requests are strictly
  increasing when the readings are, and non-decreasing when the readings are
  non-decreasing.
\<close>

theorem nonces_follow_clock:
  "(sorted_wrt (<) (map fst reqs) \<longrightarrow> sorted_wrt (<) (nonces reqs)) \<and>
   (sorted_wrt (\<le>) (map fst reqs) \<longrightarrow> sorted_wrt (\<le>) (nonces reqs))"
proof (intro conjI impI)
  assume "sorted_wrt (<) (map fst reqs)"
  then have "sorted_wrt (\<lambda>a b. fst a < fst b) reqs" by (simp add: sorted_wrt_map)
  then have "sorted_wrt (\<lambda>a b. fst a < fst b)
               (filter (\<lambda>r. nonce_header (fst r) (snd r) \<noteq> None) reqs)"
    by (rule sorted_wrt_filter)
  then show "sorted_wrt (<) (nonces reqs)"
    by (simp add: nonces_map sorted_wrt_map)
next
  assume "sorted_wrt (\<le>) (map fst reqs)"
  then have "sorted_wrt (\<lambda>a b. fst a \<le> fst b) reqs" by (simp add: sorted_wrt_map)
  then have "sorted_wrt (\<lambda>a b. fst a \<le> fst b)
               (filter (\<lambda>r. nonce_header (fst r) (snd r) \<noteq> None) reqs)"
    by (rule sorted_wrt_filter)
  then show "sorted_wrt (\<le>) (nonces reqs)"
    by (simp add: nonces_map sorted_wrt_map)
qed

theorem nonces_follow_clock_witness:
  "sorted_wrt (<) (map fst [(1700000000000::int, Some ''/derivatives/api/v3/sendorder''),
                            (1700000000001, Some ''/derivatives/api/v3/sendorder'')]) \<and>
   sorted_wrt (\<le>) (map fst [(1700000000000::int, Some ''/derivatives/api/v3/sendorder''),
                            (1700000000001, Some ''/derivatives/api/v3/sendorder'')]) \<and>
   nonces [(1700000000000, Some ''/derivatives/api/v3/sendorder''),
           (1700000000001, Some ''/derivatives/api/v3/sendorder'')] =
     [1700000000000000, 1700000000001000] \<and>
   sorted_wrt (<) (nonces [(1700000000000, Some ''/derivatives/api/v3/sendorder''),
                           (1700000000001, Some ''/derivatives/api/v3/sendorder'')]) \<and>
   sorted_wrt (\<le>) (nonces [(1700000000000, Some ''/derivatives/api/v3/sendorder''),
                           (1700000000001, Some ''/derivatives/api/v3/sendorder'')])"
proof -
  let ?reqs = "[(1700000000000::int, Some ''/derivatives/api/v3/sendorder''),
                (1700000000001, Some ''/derivatives/api/v3/sendorder'')]"
  have a: "sorted_wrt (<) (map fst ?reqs)" and b: "sorted_wrt (\<le>) (map fst ?reqs)"
    by simp_all
  have c: "nonces ?reqs = [1700000000000000, 1700000000001000]"
    by code_simp
  from nonces_follow_clock [of ?reqs] a b c show ?thesis by blast
qed

theorem same_millisecond_counterexample:
  "nonces [(1700000000000, Some ''/derivatives/api/v3/sendorder''),
           (1700000000000, Some ''/derivatives/api/v3/sendorder'')] =
     [1700000000000000, 1700000000000000] \<and>
   \<not> sorted_wrt (<) (nonces [(1700000000000, Some ''/derivatives/api/v3/sendorder''),
                             (1700000000000, Some ''/derivatives/api/v3/sendorder'')])"
  by code_simp

end
